theory Spec2Isabelle
  imports Main "HOL-Library.Sublist"
begin

section \<open>Strings\<close>

text \<open>
  JavaScript strings are modelled as \<^typ>\<open>string\<close>. \<open>String.prototype.toLowerCase\<close> is
  modelled on the ASCII letters (\<open>A\<close>..\<open>Z\<close> become \<open>a\<close>..\<open>z\<close>, every other character is
  kept), \<open>String.prototype.includes\<close> is the search for a contiguous occurrence, and
  \<open>String.prototype.trim\<close> drops the white space at both ends.
\<close>

definition lower_char :: "char \<Rightarrow> char" where
  "lower_char c =
     (case map_of (zip ''ABCDEFGHIJKLMNOPQRSTUVWXYZ'' ''abcdefghijklmnopqrstuvwxyz'') c of
        Some l \<Rightarrow> l
      | None \<Rightarrow> c)"

definition toLowerCase :: "string \<Rightarrow> string" where
  "toLowerCase s = map lower_char s"

fun str_includes :: "string \<Rightarrow> string \<Rightarrow> bool" where
  "str_includes [] sub = (sub = [])"
| "str_includes (c # s) sub = (prefix sub (c # s) \<or> str_includes s sub)"

definition is_space :: "char \<Rightarrow> bool" where
  "is_space c = ((of_char c :: nat) \<in> {9, 10, 11, 12, 13, 32})"

definition trim :: "string \<Rightarrow> string" where
  "trim s = rev (dropWhile is_space (rev (dropWhile is_space s)))"

section \<open>Posts and the filtered view\<close>

text \<open>
  A post as \<open>App.js\<close> reads it: \<open>_id\<close> (here \<open>post_id\<close>), \<open>title\<close>, \<open>content\<close>,
  \<open>category\<close>, \<open>likes\<close>, \<open>views\<close>, \<open>mediaUrl\<close>, \<open>mediaType\<close> and \<open>createdAt\<close>.
  The counters are integers.
\<close>

record post =
  post_id :: string
  title :: string
  content :: string
  category :: string
  likes :: int
  views :: int
  mediaUrl :: "string option"
  mediaType :: "string option"
  createdAt :: string

text \<open>
  \<^verbatim>\<open>
  const matchesSearch = post.title.toLowerCase().includes(searchTerm.toLowerCase()) ||
                        post.content.toLowerCase().includes(searchTerm.toLowerCase());
  const matchesFilter = activeFilter === 'all' ||
                        post.category.toLowerCase() === activeFilter.toLowerCase();
  return matchesSearch && matchesFilter;
  \<close>
\<close>

definition matchesSearch :: "string \<Rightarrow> post \<Rightarrow> bool" where
  "matchesSearch searchTerm p =
     (str_includes (toLowerCase (title p)) (toLowerCase searchTerm) \<or>
      str_includes (toLowerCase (content p)) (toLowerCase searchTerm))"

definition matchesFilter :: "string \<Rightarrow> post \<Rightarrow> bool" where
  "matchesFilter activeFilter p =
     (activeFilter = ''all'' \<or> toLowerCase (category p) = toLowerCase activeFilter)"

definition filteredPosts :: "post list \<Rightarrow> string \<Rightarrow> string \<Rightarrow> post list" where
  "filteredPosts ps searchTerm activeFilter =
     filter (\<lambda>p. matchesSearch searchTerm p \<and> matchesFilter activeFilter p) ps"

section \<open>Notifications\<close>

text \<open>
  \<^verbatim>\<open>
  const addToast = useCallback((message, type = 'info') => {
      const id = Date.now();
      setToasts(prev => [...prev, { id, message, type }]);
      setTimeout(() => {
          setToasts(prev => prev.filter(t => t.id !== id));
      }, 4000);
  }, []);
  \<close>
  The browser is part of the state: \<open>clock\<close> is the millisecond clock that \<open>Date.now()\<close>
  reads, and \<open>timers\<close> holds the callbacks that \<open>setTimeout\<close> has scheduled and that have
  not run yet, each with the time at which it is due and the identifier its closure
  captured.
\<close>

datatype toast_kind = Info | Success | Error

record toast =
  toast_id :: nat
  message :: string
  toast_type :: toast_kind

record timer =
  fires_at :: nat
  dismisses :: nat

section \<open>Requests and responses\<close>

datatype request = GetPosts | DeletePost "string option" | LikePost string

text \<open>
  The body of a response (\<open>response.data\<close>): a JSON value whose arrays hold posts.
  An object is the list of its properties, each name occurring once.
\<close>

datatype body =
    Null
  | Undefined
  | Bool bool
  | Num int
  | Str string
  | Arr "post list"
  | Obj "(string \<times> body) list"

text \<open>
  A request either resolves with a body, or is rejected; \<open>Rejected m\<close> carries
  \<open>error.response?.data?.message\<close> when the server sent one.
\<close>

datatype response = Resolved body | Rejected "string option"

datatype js_error = TypeError | RequestError "string option"

text \<open>
  Reading the property \<open>success\<close> or \<open>data\<close> of a value: \<open>null\<close> and \<open>undefined\<close> throw
  a TypeError, an object gives the property or \<open>undefined\<close>, and arrays, strings, numbers
  and booleans have no such property.
\<close>

fun property :: "string \<Rightarrow> body \<Rightarrow> js_error + body" where
  "property k Null = Inl TypeError"
| "property k Undefined = Inl TypeError"
| "property k (Obj props) = Inr (case map_of props k of Some v \<Rightarrow> v | None \<Rightarrow> Undefined)"
| "property k v = Inr Undefined"

fun truthy :: "body \<Rightarrow> bool" where
  "truthy Null = False"
| "truthy Undefined = False"
| "truthy (Bool b) = b"
| "truthy (Num n) = (n \<noteq> 0)"
| "truthy (Str s) = (s \<noteq> [])"
| "truthy (Arr ps) = True"
| "truthy (Obj props) = True"

section \<open>The state of the application\<close>

text \<open>
  What \<open>localStorage\<close> holds under the key \<open>likedPosts\<close>: the JSON text of an array of
  identifiers, or the text \<open>undefined\<close>, which is what \<open>setItem\<close> stores when
  \<open>JSON.stringify\<close> is given a function.
\<close>

datatype stored = Stringified "string list" | Text_undefined

record app =
  posts :: "post list"
  loading :: bool
  isConfirmModalOpen :: bool
  postIdToDelete :: "string option"
  likedPosts :: "string list"
  storage_item :: "stored option"
  storage_writable :: bool
  toasts :: "toast list"
  timers :: "timer list"
  clock :: nat
  requests :: "request list"

definition addToast :: "string \<Rightarrow> toast_kind \<Rightarrow> app \<Rightarrow> app" where
  "addToast msg type st =
     st\<lparr>toasts := toasts st @ [\<lparr>toast_id = clock st, message = msg, toast_type = type\<rparr>],
        timers := timers st @ [\<lparr>fires_at = clock st + 4000, dismisses = clock st\<rparr>]\<rparr>"

text \<open>The callback of a timer: \<open>setToasts(prev => prev.filter(t => t.id !== id))\<close>.\<close>

definition fire :: "timer \<Rightarrow> app \<Rightarrow> app" where
  "fire tm st = st\<lparr>toasts := filter (\<lambda>t. toast_id t \<noteq> dismisses tm) (toasts st)\<rparr>"

text \<open>
  \<open>d\<close> milliseconds pass: the callbacks that are due by then run, in the order in which
  they were scheduled, and leave the timer queue.
\<close>

definition advance :: "nat \<Rightarrow> app \<Rightarrow> app" where
  "advance d st =
     (let t = clock st + d
      in (fold fire (filter (\<lambda>tm. fires_at tm \<le> t) (timers st)) st)
           \<lparr>timers := filter (\<lambda>tm. \<not> fires_at tm \<le> t) (timers st), clock := t\<rparr>)"

text \<open>
  \<^verbatim>\<open>
  const setStoredValue = useCallback((newValue) => {
      try {
          setValue(newValue);
          window.localStorage.setItem(key, JSON.stringify(newValue));
      } catch (error) { console.warn(...); }
  }, [key]);
  \<close>
  \<open>handleLike\<close> always passes an updater function: React applies it to the previous
  value, and \<open>JSON.stringify\<close> of a function is \<open>undefined\<close>. A \<open>setItem\<close> that throws is
  caught after the state has been set.
\<close>

definition setLikedPosts :: "(string list \<Rightarrow> string list) \<Rightarrow> app \<Rightarrow> app" where
  "setLikedPosts updater st =
     st\<lparr>likedPosts := updater (likedPosts st),
        storage_item := (if storage_writable st then Some Text_undefined else storage_item st)\<rparr>"

definition send :: "request \<Rightarrow> app \<Rightarrow> app" where
  "send r st = st\<lparr>requests := requests st @ [r]\<rparr>"

section \<open>Fetching the posts\<close>

text \<open>
  \<^verbatim>\<open>
  try {
      setLoading(true);
      const response = await axios.get(`${API_BASE_URL}/api/posts`);
      const postsData = response.data.success ? response.data.data : response.data;
      setPosts(Array.isArray(postsData) ? postsData : []);
  } catch (error) {
      addToast("Could not fetch posts. Please try again later.", 'error');
      setPosts([]);
  } finally {
      setLoading(false);
  }
  \<close>
\<close>

definition postsData :: "body \<Rightarrow> js_error + body" where
  "postsData d =
     (case property ''success'' d of
        Inl e \<Rightarrow> Inl e
      | Inr s \<Rightarrow> if truthy s then property ''data'' d else Inr d)"

definition fetch_begin :: "app \<Rightarrow> app" where
  "fetch_begin st = send GetPosts (st\<lparr>loading := True\<rparr>)"

definition fetch_settle :: "response \<Rightarrow> app \<Rightarrow> app" where
  "fetch_settle r st =
     (let outcome = (case r of Rejected m \<Rightarrow> Inl (RequestError m) | Resolved d \<Rightarrow> postsData d);
          st' = (case outcome of
                   Inr pd \<Rightarrow> st\<lparr>posts := (case pd of Arr ps \<Rightarrow> ps | _ \<Rightarrow> [])\<rparr>
                 | Inl e \<Rightarrow>
                     (addToast ''Could not fetch posts. Please try again later.'' Error st)
                       \<lparr>posts := []\<rparr>)
      in st'\<lparr>loading := False\<rparr>)"

definition fetchPosts :: "response \<Rightarrow> app \<Rightarrow> app" where
  "fetchPosts r st = fetch_settle r (fetch_begin st)"

section \<open>Deleting a post\<close>

text \<open>
  \<^verbatim>\<open>
  try {
      await axios.delete(`${API_BASE_URL}/api/posts/${postIdToDelete}`);
      setPosts(posts.filter(p => p._id !== postIdToDelete));
      setConfirmModalOpen(false);
      setPostIdToDelete(null);
      addToast('Post deleted successfully!', 'success');
  } catch (error) {
      const errorMessage = error.response?.data?.message || 'Could not delete post.';
      addToast(`Error: ${errorMessage}`, 'error');
  }
  \<close>
  The handler awaits the request. \<open>posts\<close> and \<open>postIdToDelete\<close> are the values of the
  render in which the handler was created: \<open>delete_settle\<close>, the part that runs when the
  request is answered, takes them as \<open>cposts\<close> and \<open>cid\<close>, apart from the state in which
  the answer arrives. \<open>handleDeleteConfirm\<close> is only the run in which the answer arrives
  before any other event; the runs with other events in between are those of \<open>run\<close> below.
\<close>

definition errorMessage :: "string option \<Rightarrow> string \<Rightarrow> string" where
  "errorMessage m fallback = (case m of Some s \<Rightarrow> if s \<noteq> [] then s else fallback | None \<Rightarrow> fallback)"

definition delete_begin :: "app \<Rightarrow> app" where
  "delete_begin st = send (DeletePost (postIdToDelete st)) st"

definition delete_settle :: "post list \<Rightarrow> string option \<Rightarrow> response \<Rightarrow> app \<Rightarrow> app" where
  "delete_settle cposts cid r st =
     (case r of
        Resolved d \<Rightarrow>
          addToast ''Post deleted successfully!'' Success
            (st\<lparr>posts := filter (\<lambda>p. Some (post_id p) \<noteq> cid) cposts,
                isConfirmModalOpen := False,
                postIdToDelete := None\<rparr>)
      | Rejected m \<Rightarrow>
          addToast (''Error: '' @ errorMessage m ''Could not delete post.'') Error st)"

definition handleDeleteConfirm :: "response \<Rightarrow> app \<Rightarrow> app" where
  "handleDeleteConfirm r st = delete_settle (posts st) (postIdToDelete st) r (delete_begin st)"

section \<open>Liking a post\<close>

text \<open>
  \<^verbatim>\<open>
  if (likedPostsSet.has(postId)) {
      addToast("You've already liked this post!", 'info');
      return;
  }
  setPosts(prevPosts => prevPosts.map(p =>
      p._id === postId ? { ...p, likes: p.likes + 1 } : p));
  setLikedPosts(prev => [...prev, postId]);
  try {
      await axios.post(`${API_BASE_URL}/api/posts/${postId}/like`);
  } catch (error) {
      setPosts(prevPosts => prevPosts.map(p =>
          p._id === postId ? { ...p, likes: p.likes - 1 } : p));
      setLikedPosts(prev => prev.filter(id => id !== postId));
      addToast("Couldn't like post. Please try again.", 'error');
  }
  \<close>
  The handler awaits the request. \<open>like_optimistic\<close> is the part that runs before the
  request is answered and \<open>like_settle\<close> the part that runs when it is, in the state in
  which the answer arrives. \<open>handleLike\<close> is only the run in which the answer arrives before
  any other event; the runs with other events in between are those of \<open>run\<close> below.
\<close>

definition likedPostsSet :: "app \<Rightarrow> string set" where
  "likedPostsSet st = set (likedPosts st)"

definition like_optimistic :: "string \<Rightarrow> app \<Rightarrow> app" where
  "like_optimistic postId st =
     send (LikePost postId)
       (setLikedPosts (\<lambda>prev. prev @ [postId])
          (st\<lparr>posts := map (\<lambda>p. if post_id p = postId then p\<lparr>likes := likes p + 1\<rparr> else p)
                          (posts st)\<rparr>))"

definition like_revert :: "string \<Rightarrow> app \<Rightarrow> app" where
  "like_revert postId st =
     addToast ''Couldn't like post. Please try again.'' Error
       (setLikedPosts (filter (\<lambda>i. i \<noteq> postId))
          (st\<lparr>posts := map (\<lambda>p. if post_id p = postId then p\<lparr>likes := likes p - 1\<rparr> else p)
                          (posts st)\<rparr>))"

definition like_settle :: "string \<Rightarrow> response \<Rightarrow> app \<Rightarrow> app" where
  "like_settle postId r st = (case r of Resolved d \<Rightarrow> st | Rejected m \<Rightarrow> like_revert postId st)"

definition handleLike :: "string \<Rightarrow> response \<Rightarrow> app \<Rightarrow> app" where
  "handleLike postId r st =
     (if postId \<in> likedPostsSet st
      then addToast ''You've already liked this post!'' Info st
      else like_settle postId r (like_optimistic postId st))"

section \<open>Notifications over time\<close>

text \<open>
  What happens to the notification queue: a notification is pushed, or time passes.
\<close>

datatype toast_event = Pushed string toast_kind | Elapsed nat

fun toast_step :: "toast_event \<Rightarrow> app \<Rightarrow> app" where
  "toast_step (Pushed msg type) st = addToast msg type st"
| "toast_step (Elapsed d) st = advance d st"

definition play :: "toast_event list \<Rightarrow> app \<Rightarrow> app" where
  "play es st = fold toast_step es st"

section \<open>Interleaved operations\<close>

text \<open>
  The handlers are asynchronous: between the moment a request is sent and the moment it
  is answered, other events are handled. A world is the state of the application together
  with the requests that are not answered yet: the identifiers of the like requests, and for
  each delete request the \<open>posts\<close> and \<open>postIdToDelete\<close> its handler has captured.
\<close>

record world =
  ui :: app
  likes_in_flight :: "string list"
  deletes_in_flight :: "(post list \<times> string option) list"

datatype event =
    LikeClicked string
  | LikeAnswered string response
  | FetchStarted
  | FetchAnswered response
  | DeleteAsked string
  | DeleteConfirmed
  | DeleteAnswered nat response

text \<open>The part of \<open>handleLike\<close> that runs at the click.\<close>

definition like_click :: "string \<Rightarrow> app \<Rightarrow> app" where
  "like_click postId st =
     (if postId \<in> likedPostsSet st
      then addToast ''You've already liked this post!'' Info st
      else like_optimistic postId st)"

text \<open>
  \<open>DeleteAsked i\<close> is \<open>onDelete\<close>: \<open>setPostIdToDelete(id); setConfirmModalOpen(true)\<close>.
  An answer can only arrive for a request that is in flight: otherwise there is no step.
\<close>

fun step :: "event \<Rightarrow> world \<Rightarrow> world option" where
  "step (LikeClicked i) w =
     Some (w\<lparr>ui := like_click i (ui w),
             likes_in_flight :=
               (if i \<in> likedPostsSet (ui w) then likes_in_flight w
                else likes_in_flight w @ [i])\<rparr>)"
| "step (LikeAnswered i r) w =
     (if i \<in> set (likes_in_flight w)
      then Some (w\<lparr>ui := like_settle i r (ui w),
                   likes_in_flight := remove1 i (likes_in_flight w)\<rparr>)
      else None)"
| "step FetchStarted w = Some (w\<lparr>ui := fetch_begin (ui w)\<rparr>)"
| "step (FetchAnswered r) w = Some (w\<lparr>ui := fetch_settle r (ui w)\<rparr>)"
| "step (DeleteAsked i) w =
     Some (w\<lparr>ui := (ui w)\<lparr>postIdToDelete := Some i, isConfirmModalOpen := True\<rparr>\<rparr>)"
| "step DeleteConfirmed w =
     Some (w\<lparr>ui := delete_begin (ui w),
             deletes_in_flight :=
               deletes_in_flight w @ [(posts (ui w), postIdToDelete (ui w))]\<rparr>)"
| "step (DeleteAnswered k r) w =
     (if k < length (deletes_in_flight w)
      then Some (w\<lparr>ui := delete_settle (fst (deletes_in_flight w ! k))
                           (snd (deletes_in_flight w ! k)) r (ui w),
                   deletes_in_flight :=
                     take k (deletes_in_flight w) @ drop (Suc k) (deletes_in_flight w)\<rparr>)
      else None)"

fun run :: "event list \<Rightarrow> world \<Rightarrow> world option" where
  "run [] w = Some w"
| "run (e # es) w = (case step e w of None \<Rightarrow> None | Some w' \<Rightarrow> run es w')"

definition nonneg_likes :: "post list \<Rightarrow> bool" where
  "nonneg_likes ps = list_all (\<lambda>p. 0 \<le> likes p) ps"

section \<open>Example inputs\<close>

definition result_2024 :: post where
  "result_2024 =
     \<lparr>post_id = ''1'', title = ''Result 2024'', content = ''<p>Out now</p>'',
      category = ''Result'', likes = 0, views = 7, mediaUrl = None, mediaType = None,
      createdAt = ''2024-05-01''\<rparr>"

definition job_notice :: post where
  "job_notice =
     \<lparr>post_id = ''2'', title = ''Job Notice'', content = ''<b>Apply</b>'',
      category = ''Job Notification'', likes = 3, views = 9, mediaUrl = None,
      mediaType = None, createdAt = ''2024-05-02''\<rparr>"

text \<open>Two posts are shown, and the dialog that confirms the deletion of the first is open.\<close>

definition confirming :: app where
  "confirming =
     \<lparr>posts = [result_2024, job_notice], loading = False, isConfirmModalOpen = True,
      postIdToDelete = Some ''1'', likedPosts = [], storage_item = None,
      storage_writable = True, toasts = [], timers = [], clock = 1000, requests = []\<rparr>"

text \<open>The same two posts are shown, no dialog is open and no request is in flight.\<close>

definition browsing :: world where
  "browsing =
     \<lparr>ui = confirming\<lparr>isConfirmModalOpen := False, postIdToDelete := None\<rparr>,
      likes_in_flight = [], deletes_in_flight = []\<rparr>"

section \<open>The notifications that a history has pushed\<close>

text \<open>
  \<open>pushes es c\<close> lists, in order, the notifications that the events \<open>es\<close> push when the
  clock starts at \<open>c\<close>, each with the time of its push as identifier.
\<close>

fun pushes :: "toast_event list \<Rightarrow> nat \<Rightarrow> toast list" where
  "pushes [] c = []"
| "pushes (Pushed msg type # es) c =
     \<lparr>toast_id = c, message = msg, toast_type = type\<rparr> # pushes es c"
| "pushes (Elapsed d # es) c = pushes es (c + d)"

text \<open>
  What holds of the queue and of the timers at every moment: each timer is due 4000 ms after
  the time that it dismisses, and each notification in the queue has its timer and is less
  than 4000 ms old.
\<close>

definition scheduled :: "app \<Rightarrow> bool" where
  "scheduled st =
     (list_all (\<lambda>tm. fires_at tm = dismisses tm + 4000) (timers st) \<and>
      list_all (\<lambda>t. list_ex (\<lambda>tm. dismisses tm = toast_id t) (timers st)) (toasts st) \<and>
      list_all (\<lambda>t. clock st < toast_id t + 4000) (toasts st))"

section \<open>Facts about strings\<close>

lemma str_includes_iff_sublist: "str_includes s sub \<longleftrightarrow> sublist sub s"
  by (induction s) (simp_all add: sublist_Cons_right)

lemma str_includes_iff_occurs: "str_includes s sub \<longleftrightarrow> (\<exists>pre suf. s = pre @ sub @ suf)"
  by (simp add: str_includes_iff_sublist sublist_def)

lemma str_includes_empty: "str_includes s []"
  by (simp add: str_includes_iff_sublist)

lemma toLowerCase_empty: "toLowerCase [] = []"
  by (simp add: toLowerCase_def)

section \<open>The filtered view\<close>

text \<open>
  C9. With the empty search term and the filter \<open>all\<close>, the filtered view is the stored
  collection itself, in the stored order.
\<close>

theorem filteredPosts_empty_all: "filteredPosts ps '''' ''all'' = ps"
  by (simp add: filteredPosts_def matchesSearch_def matchesFilter_def toLowerCase_empty
      str_includes_empty)

text \<open>
  C10. For every collection, search term and filter, the filtered view is a subsequence of
  the stored collection: its elements are elements of the collection, none occurs more often
  than in the collection, and the order of the collection is kept.
\<close>

theorem filteredPosts_subseq:
  "subseq (filteredPosts ps searchTerm activeFilter) ps \<and>
   set (filteredPosts ps searchTerm activeFilter) \<subseteq> set ps \<and>
   count_list (filteredPosts ps searchTerm activeFilter) p \<le> count_list ps p"
proof -
  let ?keep = "\<lambda>p. matchesSearch searchTerm p \<and> matchesFilter activeFilter p"
  have "count_list (filter ?keep ps) p \<le> count_list ps p"
    by (induction ps) simp_all
  then show ?thesis
    by (simp add: filteredPosts_def)
qed

text \<open>
  C3, as amended. The filtered view is a function of the collection, the lower-cased search
  term and the filter, and nothing else: a post of the collection is in the view exactly when
  its lower-cased title or its lower-cased content (markup included) contains the lower-cased
  search term, and the filter is \<open>all\<close> or equals the post's category up to letter case.
  The search term is not trimmed: only terms with the same lower-casing are sure to give the
  same view.
\<close>

theorem filteredPosts_member:
  "(p \<in> set (filteredPosts ps searchTerm activeFilter) \<longleftrightarrow>
      p \<in> set ps \<and>
      ((\<exists>pre suf. toLowerCase (title p) = pre @ toLowerCase searchTerm @ suf) \<or>
       (\<exists>pre suf. toLowerCase (content p) = pre @ toLowerCase searchTerm @ suf)) \<and>
      (activeFilter = ''all'' \<or> toLowerCase (category p) = toLowerCase activeFilter)) \<and>
   (toLowerCase searchTerm = toLowerCase searchTerm' \<longrightarrow>
      filteredPosts ps searchTerm activeFilter = filteredPosts ps searchTerm' activeFilter)"
  by (simp add: filteredPosts_def matchesSearch_def matchesFilter_def str_includes_iff_occurs)

theorem filteredPosts_member_witness:
  "toLowerCase ''RESULT'' = toLowerCase ''result'' \<and>
   filteredPosts [result_2024, job_notice] ''RESULT'' ''all'' =
     filteredPosts [result_2024, job_notice] ''result'' ''all'' \<and>
   filteredPosts [result_2024, job_notice] ''result'' ''all'' = [result_2024]"
proof -
  have same: "toLowerCase ''RESULT'' = toLowerCase ''result''"
    by (simp add: toLowerCase_def lower_char_def)
  have view: "filteredPosts [result_2024, job_notice] ''result'' ''all'' = [result_2024]"
    by (simp add: filteredPosts_def matchesSearch_def matchesFilter_def toLowerCase_def
        lower_char_def result_2024_def job_notice_def)
  from same
    filteredPosts_member [of result_2024 "[result_2024, job_notice]" "''RESULT''" "''all''"
      "''result''"]
  have "filteredPosts [result_2024, job_notice] ''RESULT'' ''all'' =
    filteredPosts [result_2024, job_notice] ''result'' ''all''"
    by blast
  with same view show ?thesis
    by blast
qed

text \<open>
  C3 as stated fails: \<open>result\<close> and the same term after a blank are equal once trimmed, and
  they give different views of the same collection.
\<close>

theorem filteredPosts_untrimmed_counterexample:
  "trim '' result'' = trim ''result'' \<and>
   filteredPosts [result_2024, job_notice] '' result'' ''all'' \<noteq>
     filteredPosts [result_2024, job_notice] ''result'' ''all''"
  by (simp add: trim_def is_space_def filteredPosts_def matchesSearch_def matchesFilter_def
      toLowerCase_def lower_char_def result_2024_def job_notice_def)

section \<open>Liking\<close>

text \<open>
  C2. Liking an identifier that is in the set of liked identifiers sends no request and
  changes neither the collection nor the set nor the stored item, and pushes one info
  notification. Hence, for an identifier that is not in the set: once its like has
  succeeded, or while its request is still in flight, a second like of the same identifier
  adds only that notification, so that the two likes together have sent one like request and
  have added one to the like count of the posts with that identifier.
\<close>

theorem handleLike_again:
  "(postId \<in> likedPostsSet st \<longrightarrow>
      requests (handleLike postId r st) = requests st \<and>
      posts (handleLike postId r st) = posts st \<and>
      likedPosts (handleLike postId r st) = likedPosts st \<and>
      storage_item (handleLike postId r st) = storage_item st \<and>
      toasts (handleLike postId r st) =
        toasts st @ [\<lparr>toast_id = clock st, message = ''You've already liked this post!'',
                      toast_type = Info\<rparr>]) \<and>
   (postId \<notin> likedPostsSet st \<longrightarrow>
      requests (handleLike postId r (handleLike postId (Resolved d) st)) =
        requests st @ [LikePost postId] \<and>
      posts (handleLike postId r (handleLike postId (Resolved d) st)) =
        map (\<lambda>p. if post_id p = postId then p\<lparr>likes := likes p + 1\<rparr> else p) (posts st) \<and>
      toasts (handleLike postId r (handleLike postId (Resolved d) st)) =
        toasts st @ [\<lparr>toast_id = clock st, message = ''You've already liked this post!'',
                      toast_type = Info\<rparr>] \<and>
      requests (handleLike postId r (like_optimistic postId st)) =
        requests st @ [LikePost postId] \<and>
      posts (handleLike postId r (like_optimistic postId st)) =
        map (\<lambda>p. if post_id p = postId then p\<lparr>likes := likes p + 1\<rparr> else p) (posts st))"
  by (simp add: handleLike_def like_settle_def like_optimistic_def likedPostsSet_def
      setLikedPosts_def send_def addToast_def)

theorem handleLike_again_witness:
  "''2'' \<notin> likedPostsSet confirming \<and>
   ''2'' \<in> likedPostsSet (handleLike ''2'' (Resolved Null) confirming) \<and>
   requests (handleLike ''2'' (Rejected None) (handleLike ''2'' (Resolved Null) confirming)) =
     [LikePost ''2''] \<and>
   posts (handleLike ''2'' (Rejected None) (handleLike ''2'' (Resolved Null) confirming)) =
     [result_2024, job_notice\<lparr>likes := 4\<rparr>] \<and>
   posts (handleLike ''2'' (Rejected None) (handleLike ''2'' (Resolved Null) confirming)) =
     posts (handleLike ''2'' (Resolved Null) confirming)"
proof -
  let ?once = "handleLike ''2'' (Resolved Null) confirming"
  have fresh: "''2'' \<notin> likedPostsSet confirming"
    by (simp add: likedPostsSet_def confirming_def)
  have liked: "''2'' \<in> likedPostsSet ?once"
    by (simp add: handleLike_def like_settle_def like_optimistic_def likedPostsSet_def
        setLikedPosts_def send_def confirming_def)
  have start: "posts confirming = [result_2024, job_notice]" "requests confirming = []"
    by (simp_all add: confirming_def)
  have ids: "post_id result_2024 = ''1''" "post_id job_notice = ''2''" "likes job_notice = 3"
    by (simp_all add: result_2024_def job_notice_def)
  from fresh handleLike_again [of "''2''" confirming "Rejected None" Null]
  have twice:
    "requests (handleLike ''2'' (Rejected None) ?once) = requests confirming @ [LikePost ''2'']"
    "posts (handleLike ''2'' (Rejected None) ?once) =
       map (\<lambda>p. if post_id p = ''2'' then p\<lparr>likes := likes p + 1\<rparr> else p) (posts confirming)"
    by blast+
  from liked handleLike_again [of "''2''" ?once "Rejected None" Null]
  have same: "posts (handleLike ''2'' (Rejected None) ?once) = posts ?once"
    by blast
  from fresh liked twice same show ?thesis
    by (simp add: start ids)
qed

section \<open>Deleting\<close>

text \<open>
  C5, as amended. When the delete request fails, the collection is unchanged, and one error
  notification is pushed: \<open>Error:\<close> followed by the server's message if there is a
  non-empty one, and by \<open>Could not delete post.\<close> otherwise. The failure does not touch the
  confirmation dialog: it is left as it was, open and with the same target, so the user can
  confirm again.
\<close>

theorem handleDeleteConfirm_failure:
  "posts (handleDeleteConfirm (Rejected m) st) = posts st \<and>
   toasts (handleDeleteConfirm (Rejected m) st) =
     toasts st @
     [\<lparr>toast_id = clock st,
       message = ''Error: '' @
         (case m of
            Some s \<Rightarrow> if s = [] then ''Could not delete post.'' else s
          | None \<Rightarrow> ''Could not delete post.''),
       toast_type = Error\<rparr>] \<and>
   isConfirmModalOpen (handleDeleteConfirm (Rejected m) st) = isConfirmModalOpen st \<and>
   postIdToDelete (handleDeleteConfirm (Rejected m) st) = postIdToDelete st \<and>
   requests (handleDeleteConfirm (Rejected m) st) = requests st @ [DeletePost (postIdToDelete st)]"
  by (simp add: handleDeleteConfirm_def delete_settle_def delete_begin_def send_def
      addToast_def errorMessage_def split: option.split)

theorem handleDeleteConfirm_failure_witness:
  "posts (handleDeleteConfirm (Rejected (Some ''Not allowed'')) confirming) =
     [result_2024, job_notice] \<and>
   toasts (handleDeleteConfirm (Rejected (Some ''Not allowed'')) confirming) =
     [\<lparr>toast_id = 1000, message = ''Error: Not allowed'', toast_type = Error\<rparr>] \<and>
   toasts (handleDeleteConfirm (Rejected None) confirming) =
     [\<lparr>toast_id = 1000, message = ''Error: Could not delete post.'', toast_type = Error\<rparr>]"
proof -
  have "posts confirming = [result_2024, job_notice]" and "toasts confirming = []"
    and "clock confirming = 1000"
    by (simp_all add: confirming_def)
  with handleDeleteConfirm_failure [of "Some ''Not allowed''" confirming]
    handleDeleteConfirm_failure [of None confirming]
  show ?thesis
    by simp
qed

text \<open>
  C5 as stated fails: the dialog is open when the deletion is confirmed, and it is still
  open, with its target, after the request has failed.
\<close>

theorem handleDeleteConfirm_failure_counterexample:
  "isConfirmModalOpen confirming \<and>
   isConfirmModalOpen (handleDeleteConfirm (Rejected None) confirming) \<and>
   postIdToDelete (handleDeleteConfirm (Rejected None) confirming) = Some ''1''"
  by (simp add: handleDeleteConfirm_def delete_settle_def delete_begin_def send_def
      addToast_def confirming_def)

section \<open>Fetching\<close>

text \<open>
  C7, as amended. The fetch takes its posts from a body that is an array, or from the
  \<open>data\<close> of an object whose \<open>success\<close> is truthy and whose \<open>data\<close> is an array; for every
  other response the collection becomes empty. An error notification is pushed exactly
  when the request is rejected or the body is \<open>null\<close> or \<open>undefined\<close>; a body of any other
  shape empties the collection without a notification.
\<close>

theorem fetchPosts_outcome:
  "posts (fetchPosts r st) =
     (case r of
        Resolved (Arr ps) \<Rightarrow> ps
      | Resolved (Obj props) \<Rightarrow>
          (case (map_of props ''success'', map_of props ''data'') of
             (Some s, Some (Arr ps)) \<Rightarrow> if truthy s then ps else []
           | _ \<Rightarrow> [])
      | _ \<Rightarrow> []) \<and>
   toasts (fetchPosts r st) =
     (if r = Resolved Null \<or> r = Resolved Undefined \<or> (\<exists>m. r = Rejected m)
      then toasts st @
        [\<lparr>toast_id = clock st, message = ''Could not fetch posts. Please try again later.'',
          toast_type = Error\<rparr>]
      else toasts st) \<and>
   loading (fetchPosts r st) = False \<and>
   requests (fetchPosts r st) = requests st @ [GetPosts]"
proof (cases r)
  case (Resolved d)
  then show ?thesis
    by (cases d)
      (auto simp add: fetchPosts_def fetch_settle_def fetch_begin_def postsData_def send_def
        addToast_def split: option.split body.split)
next
  case (Rejected m)
  then show ?thesis
    by (simp add: fetchPosts_def fetch_settle_def fetch_begin_def send_def addToast_def)
qed

theorem fetchPosts_outcome_witness:
  "posts (fetchPosts (Resolved (Arr [job_notice])) confirming) = [job_notice] \<and>
   posts (fetchPosts (Resolved (Obj [(''success'', Bool True), (''data'', Arr [job_notice])]))
     confirming) = [job_notice] \<and>
   posts (fetchPosts (Rejected None) confirming) = [] \<and>
   toasts (fetchPosts (Rejected None) confirming) =
     [\<lparr>toast_id = 1000, message = ''Could not fetch posts. Please try again later.'',
       toast_type = Error\<rparr>] \<and>
   toasts (fetchPosts (Resolved Null) confirming) =
     [\<lparr>toast_id = 1000, message = ''Could not fetch posts. Please try again later.'',
       toast_type = Error\<rparr>]"
proof -
  have "toasts confirming = []" and "clock confirming = 1000"
    by (simp_all add: confirming_def)
  with fetchPosts_outcome [of "Resolved (Arr [job_notice])" confirming]
    fetchPosts_outcome
      [of "Resolved (Obj [(''success'', Bool True), (''data'', Arr [job_notice])])" confirming]
    fetchPosts_outcome [of "Rejected None" confirming]
    fetchPosts_outcome [of "Resolved Null" confirming]
  show ?thesis
    by simp
qed

text \<open>
  C7 as stated fails: an object that is neither an array nor an envelope empties the
  collection, and no notification is pushed.
\<close>

theorem fetchPosts_silent_counterexample:
  "posts (fetchPosts (Resolved (Obj [(''posts'', Arr [job_notice])])) confirming) = [] \<and>
   toasts (fetchPosts (Resolved (Obj [(''posts'', Arr [job_notice])])) confirming) = []"
  by (simp add: fetchPosts_def fetch_settle_def fetch_begin_def postsData_def send_def
      confirming_def)

section \<open>The lifetime of a notification\<close>

lemma fold_fire:
  "toasts (fold fire tms st) =
     filter (\<lambda>t. \<not> list_ex (\<lambda>tm. dismisses tm = toast_id t) tms) (toasts st)"
proof (induction tms arbitrary: st)
  case Nil
  show ?case by simp
next
  case (Cons tm tms)
  have "toasts (fold fire (tm # tms) st) =
      filter (\<lambda>t. \<not> list_ex (\<lambda>tm. dismisses tm = toast_id t) tms) (toasts (fire tm st))"
    by (simp add: Cons.IH)
  also have "\<dots> =
      filter (\<lambda>t. \<not> list_ex (\<lambda>tm. dismisses tm = toast_id t) (tm # tms)) (toasts st)"
    by (auto simp add: fire_def intro: filter_cong)
  finally show ?case .
qed

lemma toasts_advance:
  "toasts (advance d st) =
     filter (\<lambda>t. \<not> list_ex (\<lambda>tm. fires_at tm \<le> clock st + d \<and> dismisses tm = toast_id t)
                      (timers st)) (toasts st)"
  by (auto simp add: advance_def Let_def fold_fire list_ex_iff intro: filter_cong)

lemma timers_advance:
  "timers (advance d st) = filter (\<lambda>tm. \<not> fires_at tm \<le> clock st + d) (timers st)"
  by (simp add: advance_def Let_def)

lemma clock_advance: "clock (advance d st) = clock st + d"
  by (simp add: advance_def Let_def)

lemma toasts_advance_scheduled:
  assumes "scheduled st"
  shows "toasts (advance d st) = filter (\<lambda>t. clock st + d < toast_id t + 4000) (toasts st)"
proof -
  have "(\<not> list_ex (\<lambda>tm. fires_at tm \<le> clock st + d \<and> dismisses tm = toast_id t) (timers st))
      = (clock st + d < toast_id t + 4000)" if "t \<in> set (toasts st)" for t
  proof -
    from assms that obtain tm where "tm \<in> set (timers st)" "dismisses tm = toast_id t"
      by (auto simp add: scheduled_def list_all_iff list_ex_iff)
    moreover from assms have "\<forall>tm \<in> set (timers st). fires_at tm = dismisses tm + 4000"
      by (simp add: scheduled_def list_all_iff)
    ultimately show ?thesis
      by (auto simp add: list_ex_iff)
  qed
  then show ?thesis
    by (simp add: toasts_advance cong: filter_cong)
qed

lemma scheduled_addToast: "scheduled st \<Longrightarrow> scheduled (addToast msg type st)"
  by (auto simp add: scheduled_def addToast_def list_all_iff list_ex_iff)

lemma scheduled_fresh: "scheduled st \<Longrightarrow> t \<in> set (toasts st) \<Longrightarrow> clock st < toast_id t + 4000"
  by (simp add: scheduled_def list_all_iff)

lemma scheduled_advance:
  assumes "scheduled st"
  shows "scheduled (advance d st)"
proof -
  from assms have due: "\<forall>tm \<in> set (timers st). fires_at tm = dismisses tm + 4000"
    and has: "\<forall>t \<in> set (toasts st). \<exists>tm \<in> set (timers st). dismisses tm = toast_id t"
    by (simp_all add: scheduled_def list_all_iff list_ex_iff)
  have "\<exists>tm \<in> set (timers (advance d st)). dismisses tm = toast_id t"
    if "t \<in> set (toasts (advance d st))" for t
  proof -
    from that assms have "t \<in> set (toasts st)" and later: "clock st + d < toast_id t + 4000"
      by (simp_all add: toasts_advance_scheduled)
    with has obtain tm where "tm \<in> set (timers st)" "dismisses tm = toast_id t"
      by blast
    with due later show ?thesis
      by (auto simp add: timers_advance)
  qed
  moreover have "clock (advance d st) < toast_id t + 4000"
    if "t \<in> set (toasts (advance d st))" for t
    using that assms by (simp add: toasts_advance_scheduled clock_advance)
  ultimately show ?thesis
    using due by (simp add: scheduled_def list_all_iff list_ex_iff timers_advance)
qed

lemma scheduled_step: "scheduled st \<Longrightarrow> scheduled (toast_step e st)"
  by (cases e) (simp_all add: scheduled_addToast scheduled_advance)

lemma clock_play: "clock st \<le> clock (play es st)"
proof (induction es arbitrary: st)
  case Nil
  show ?case by (simp add: play_def)
next
  case (Cons e es)
  have "clock st \<le> clock (toast_step e st)"
    by (cases e) (simp_all add: addToast_def clock_advance)
  also have "\<dots> \<le> clock (play es (toast_step e st))"
    by (rule Cons.IH)
  finally show ?case by (simp add: play_def)
qed

lemma play_Cons: "play (e # es) st = play es (toast_step e st)"
  by (simp add: play_def)

lemma toasts_play:
  "scheduled st \<Longrightarrow>
   toasts (play es st) =
     filter (\<lambda>t. clock (play es st) < toast_id t + 4000) (toasts st @ pushes es (clock st))"
proof (induction es arbitrary: st)
  case Nil
  then have "filter (\<lambda>t. clock st < toast_id t + 4000) (toasts st) = toasts st"
    by (simp add: filter_id_conv scheduled_fresh)
  then show ?case
    by (simp add: play_def)
next
  case (Cons e es)
  let ?st = "toast_step e st"
  let ?now = "clock (play es ?st)"
  from Cons.prems have later: "scheduled ?st"
    by (rule scheduled_step)
  have "toasts (play (e # es) st) =
      filter (\<lambda>t. ?now < toast_id t + 4000) (toasts ?st @ pushes es (clock ?st))"
    by (simp add: play_Cons Cons.IH [OF later])
  also have "\<dots> = filter (\<lambda>t. ?now < toast_id t + 4000) (toasts st @ pushes (e # es) (clock st))"
  proof (cases e)
    case (Pushed msg type)
    then show ?thesis
      by (simp add: addToast_def)
  next
    case (Elapsed d)
    have "clock st + d \<le> ?now"
      using clock_play [of "advance d st" es] by (simp add: Elapsed clock_advance)
    then have "filter (\<lambda>t. ?now < toast_id t + 4000)
        (filter (\<lambda>t. clock st + d < toast_id t + 4000) (toasts st)) =
      filter (\<lambda>t. ?now < toast_id t + 4000) (toasts st)"
      by (auto intro: filter_cong)
    with Cons.prems show ?thesis
      by (simp add: Elapsed toasts_advance_scheduled clock_advance)
  qed
  finally show ?case
    by (simp add: play_Cons)
qed
lemma scheduled_empty: "toasts st = [] \<Longrightarrow> timers st = [] \<Longrightarrow> scheduled st"
  by (simp add: scheduled_def)

lemma scheduled_play: "scheduled st \<Longrightarrow> scheduled (play es st)"
  by (induction es arbitrary: st) (simp_all add: play_def scheduled_step)

text \<open>
  C6. Time is counted in milliseconds on the clock that \<open>Date.now()\<close> reads, and a timer runs
  when the clock reaches the time at which it is due. The queue starts empty, and
  notifications are pushed and time passes in any order. Then the queue holds, at every
  moment, exactly the notifications pushed less than 4000 ms ago, in the order of their
  pushes, a repeated push being a repeated entry. So a notification pushed at time \<open>T\<close> is in
  the queue as long as the clock is below \<open>T + 4000\<close> (at \<open>T + 3999\<close>) and is not in it once
  the clock has reached \<open>T + 4000\<close> (at \<open>T + 4001\<close>), whatever is pushed before or after it.
  Its push adds one timer, due at \<open>T + 4000\<close>, and leaves the timers of the other
  notifications as they are.
\<close>

theorem toast_lifetime:
  assumes "toasts st0 = []" and "timers st0 = []"
  shows
    "toasts (play es st0) =
       filter (\<lambda>t. clock (play es st0) < toast_id t + 4000) (pushes es (clock st0)) \<and>
     (let st = play before st0;
          st' = play after (addToast msg type st);
          t = \<lparr>toast_id = clock st, message = msg, toast_type = type\<rparr>
      in (clock st' < clock st + 4000 \<longrightarrow> t \<in> set (toasts st')) \<and>
         (clock st + 4000 \<le> clock st' \<longrightarrow> t \<notin> set (toasts st')) \<and>
         timers (addToast msg type st) =
           timers st @ [\<lparr>fires_at = clock st + 4000, dismisses = clock st\<rparr>])"
proof -
  from assms have start: "scheduled st0"
    by (rule scheduled_empty)
  define st where "st = play before st0"
  define st' where "st' = play after (addToast msg type st)"
  define t where "t = \<lparr>toast_id = clock st, message = msg, toast_type = type\<rparr>"
  have "scheduled (addToast msg type st)"
    unfolding st_def using start by (intro scheduled_addToast scheduled_play)
  then have queue: "toasts st' =
      filter (\<lambda>x. clock st' < toast_id x + 4000)
        (toasts (addToast msg type st) @ pushes after (clock (addToast msg type st)))"
    unfolding st'_def by (rule toasts_play)
  have pushed: "t \<in> set (toasts (addToast msg type st))" and id: "toast_id t = clock st"
    by (simp_all add: t_def addToast_def)
  have young: "t \<in> set (toasts st')" if "clock st' < clock st + 4000"
    using that pushed id by (simp add: queue)
  have old: "t \<notin> set (toasts st')" if "clock st + 4000 \<le> clock st'"
    using that id by (simp add: queue)
  have timer: "timers (addToast msg type st) =
      timers st @ [\<lparr>fires_at = clock st + 4000, dismisses = clock st\<rparr>]"
    by (simp add: addToast_def)
  have "toasts (play es st0) =
      filter (\<lambda>t. clock (play es st0) < toast_id t + 4000) (pushes es (clock st0))"
    using toasts_play [OF start, of es] assms by simp
  with young old timer show ?thesis
    by (simp add: Let_def st_def [symmetric] st'_def [symmetric] t_def [symmetric])
qed

theorem toast_lifetime_witness:
  "toasts confirming = [] \<and> timers confirming = [] \<and>
   clock (play [Elapsed 5] confirming) = 1005 \<and>
   clock (play [Pushed ''Saved'' Success, Elapsed 3999]
     (addToast ''Saved'' Success (play [Elapsed 5] confirming))) = 5004 \<and>
   \<lparr>toast_id = 1005, message = ''Saved'', toast_type = Success\<rparr> \<in>
     set (toasts (play [Pushed ''Saved'' Success, Elapsed 3999]
       (addToast ''Saved'' Success (play [Elapsed 5] confirming)))) \<and>
   clock (play [Pushed ''Saved'' Success, Elapsed 3999, Elapsed 2]
     (addToast ''Saved'' Success (play [Elapsed 5] confirming))) = 5006 \<and>
   \<lparr>toast_id = 1005, message = ''Saved'', toast_type = Success\<rparr> \<notin>
     set (toasts (play [Pushed ''Saved'' Success, Elapsed 3999, Elapsed 2]
       (addToast ''Saved'' Success (play [Elapsed 5] confirming))))"
proof -
  let ?st = "play [Elapsed 5] confirming"
  let ?young = "play [Pushed ''Saved'' Success, Elapsed 3999] (addToast ''Saved'' Success ?st)"
  let ?old =
    "play [Pushed ''Saved'' Success, Elapsed 3999, Elapsed 2] (addToast ''Saved'' Success ?st)"
  have empty: "toasts confirming = []" "timers confirming = []"
    by (simp_all add: confirming_def)
  have pushed: "clock ?st = 1005"
    by (simp add: play_def clock_advance confirming_def)
  have young: "clock ?young = 5004"
    by (simp add: play_def clock_advance addToast_def confirming_def)
  have old: "clock ?old = 5006"
    by (simp add: play_def clock_advance addToast_def confirming_def)
  from toast_lifetime [OF empty, of "[]" "[Elapsed 5]"
      "[Pushed ''Saved'' Success, Elapsed 3999]" "''Saved''" Success]
  have "\<lparr>toast_id = 1005, message = ''Saved'', toast_type = Success\<rparr> \<in> set (toasts ?young)"
    by (simp add: Let_def pushed young)
  moreover
  from toast_lifetime [OF empty, of "[]" "[Elapsed 5]"
      "[Pushed ''Saved'' Success, Elapsed 3999, Elapsed 2]" "''Saved''" Success]
  have "\<lparr>toast_id = 1005, message = ''Saved'', toast_type = Success\<rparr> \<notin> set (toasts ?old)"
    by (simp add: Let_def pushed old)
  ultimately show ?thesis
    using empty pushed young old by simp
qed

section \<open>Answers that arrive late\<close>

lemma unlike_like:
  "map (\<lambda>p. if post_id p = i then p\<lparr>likes := likes p - 1\<rparr> else p)
     (map (\<lambda>p. if post_id p = i then p\<lparr>likes := likes p + 1\<rparr> else p) ps) = ps"
  by (induction ps) simp_all

text \<open>
  The rollback undoes the increment in the state that the increment has produced.
\<close>

lemma like_revert_in_place: "posts (like_revert i (like_optimistic i st)) = posts st"
  by (simp add: like_revert_def like_optimistic_def setLikedPosts_def send_def addToast_def
      unlike_like del: map_map)

text \<open>
  The collection after a successful delete is made of the posts that the handler captured
  at the confirmation, whatever the collection is when the answer arrives.
\<close>

lemma posts_delete_settle:
  "posts (delete_settle cposts (Some x) (Resolved d) st) =
     filter (\<lambda>p. post_id p \<noteq> x) cposts"
  by (simp add: delete_settle_def addToast_def)

lemmas run_simps =
  browsing_def confirming_def result_2024_def job_notice_def nonneg_likes_def
  like_click_def likedPostsSet_def like_optimistic_def like_settle_def like_revert_def
  setLikedPosts_def send_def fetch_begin_def fetch_settle_def postsData_def
  delete_begin_def delete_settle_def addToast_def

text \<open>
  C1. When the like request fails, the like count should be what it was before the like.
  The code misses this when the collection is replaced while the request is in flight,
  because the rollback subtracts one from the count it finds. The second post has 3 likes.
  It is liked, which shows 4; a fetch is answered with the server's count, 3; then the like
  request fails, and the rollback leaves 2. The rest of the claim holds in this run: the
  identifier is not in the set of liked identifiers, one error notification has been pushed,
  and one like request has been sent.
\<close>

theorem like_failure_after_refresh:
  "map likes (posts (ui browsing)) = [0, 3] \<and>
   map_option (\<lambda>w. map likes (posts (ui w)))
     (run [LikeClicked ''2'', FetchStarted,
           FetchAnswered (Resolved (Arr [result_2024, job_notice])),
           LikeAnswered ''2'' (Rejected None)] browsing) = Some [0, 2] \<and>
   map_option (\<lambda>w. (likedPosts (ui w), map toast_type (toasts (ui w)), requests (ui w)))
     (run [LikeClicked ''2'', FetchStarted,
           FetchAnswered (Resolved (Arr [result_2024, job_notice])),
           LikeAnswered ''2'' (Rejected None)] browsing) =
     Some ([], [Error], [LikePost ''2'', GetPosts])"
  by (simp add: run_simps)

text \<open>
  C4. No like count should ever be negative. The code misses this in the same way. The
  first post has no like, and a fetch is in flight. The post is liked, which shows 1; the
  fetch is answered with the server's count, 0; then the like request fails, and the
  rollback shows -1.
\<close>

theorem likes_negative_after_refresh:
  "nonneg_likes (posts (ui browsing)) \<and>
   nonneg_likes [result_2024] \<and>
   map_option (\<lambda>w. map likes (posts (ui w)))
     (run [FetchStarted, LikeClicked ''1'', FetchAnswered (Resolved (Arr [result_2024])),
           LikeAnswered ''1'' (Rejected None)] browsing) = Some [- 1]"
  by (simp add: run_simps)

text \<open>
  C8. A successful delete should remove the posts with the deleted identifier and leave
  every other post as it is. The code misses this when the collection changes while the
  delete request is in flight, because it writes back the posts captured at the
  confirmation. The second post has 3 likes and is liked, which shows 4. The deletion of the
  first post is asked for and confirmed. The like request fails, and the rollback shows 3
  again. Then the delete request succeeds: the first post is removed, and the second post,
  which was not deleted, goes from 3 likes to 4.
\<close>

theorem delete_overwrites_other_post:
  "map_option (\<lambda>w. map (\<lambda>p. (post_id p, likes p)) (posts (ui w)))
     (run [LikeClicked ''2'', DeleteAsked ''1'', DeleteConfirmed,
           LikeAnswered ''2'' (Rejected None)] browsing) = Some [(''1'', 0), (''2'', 3)] \<and>
   map_option (\<lambda>w. map (\<lambda>p. (post_id p, likes p)) (posts (ui w)))
     (run [LikeClicked ''2'', DeleteAsked ''1'', DeleteConfirmed,
           LikeAnswered ''2'' (Rejected None), DeleteAnswered 0 (Resolved Null)] browsing) =
     Some [(''2'', 4)]"
  by (simp add: run_simps)

end
